theory Spec2Isabelle
  imports Main "HOL-Library.Multiset"
begin

section \<open>Plain JavaScript objects used as tables\<close>

text \<open>
  The three tables of \<^verbatim>\<open>ConceptRouter\<close> are object literals \<^verbatim>\<open>{}\<close>
  (\<^verbatim>\<open>Record<string, ...>\<close>), tested with the \<^verbatim>\<open>in\<close> operator and read with
  \<^verbatim>\<open>obj[name]\<close>. Both follow the prototype chain, so an object literal answers for
  its own keys and for the property names of \<^verbatim>\<open>Object.prototype\<close>. A table is modelled
  by the map of its own properties; the inherited names are listed below.
\<close>

type_synonym 'v js_object = "string \<rightharpoonup> 'v"

definition Object_prototype_keys :: "string list" where
  "Object_prototype_keys =
     [''constructor'', ''__defineGetter__'', ''__defineSetter__'', ''hasOwnProperty'',
      ''__lookupGetter__'', ''__lookupSetter__'', ''isPrototypeOf'',
      ''propertyIsEnumerable'', ''toString'', ''valueOf'', ''__proto__'',
      ''toLocaleString'']"

text \<open>What \<^verbatim>\<open>obj[name]\<close> evaluates to: a stored value, a member inherited from
  \<^verbatim>\<open>Object.prototype\<close>, or \<^verbatim>\<open>undefined\<close>.\<close>

datatype 'v js_value = Handler 'v | ObjectPrototypeMember string | Undefined

definition js_in :: "string \<Rightarrow> 'v js_object \<Rightarrow> bool" where
  "js_in k obj = (obj k \<noteq> None \<or> k \<in> set Object_prototype_keys)"

definition js_get :: "string \<Rightarrow> 'v js_object \<Rightarrow> 'v js_value" where
  "js_get k obj =
     (case obj k of
        Some v \<Rightarrow> Handler v
      | None \<Rightarrow> if k \<in> set Object_prototype_keys then ObjectPrototypeMember k else Undefined)"

section \<open>The action registry\<close>

text \<open>
  \<^verbatim>\<open>throw new Error(msg)\<close> is \<open>Inl (Error msg)\<close>; calling a property that is not a
  function is \<open>Inl TypeError\<close>. The type \<open>'h\<close> stands for \<^verbatim>\<open>RequestHandler\<close>
  (\<^verbatim>\<open>Validator\<close> and \<^verbatim>\<open>Action\<close> are aliases of it).
\<close>

datatype error = Error string | TypeError

text \<open>
  An options object and its \<^verbatim>\<open>validate\<close> array belong to the caller of
  \<^verbatim>\<open>defineAction\<close>: the router keeps the object it is handed
  (\<^verbatim>\<open>this.options[name] = options\<close>), not a copy, and \<^verbatim>\<open>handlers\<close> reads the
  array through it at every call. These objects therefore live in a heap: an address
  names an options object, whose \<^verbatim>\<open>validate\<close> property is absent or refers to an
  array, and an address names an array of handlers. A reference always denotes an
  object, so the heap is total.
\<close>

type_synonym addr = nat

record ActionOptions =
  validate :: "addr option"

record 'h heap =
  options_at :: "addr \<Rightarrow> ActionOptions"
  array_at :: "addr \<Rightarrow> 'h list"

record ('d, 'h) ConceptRouter =
  name :: string
  db :: 'd
  actions :: "'h js_object"
  options :: "addr js_object"
  syncs :: "'h list js_object"

text \<open>The constructor; \<open>dbname\<close> is \<^verbatim>\<open>db.name\<close>. The field \<^verbatim>\<open>router\<close> (an
  \<^verbatim>\<open>express.Router()\<close>) is never used by the class and is left out.\<close>

definition new_ConceptRouter :: "string \<Rightarrow> 'd \<Rightarrow> ('d, 'h) ConceptRouter" where
  "new_ConceptRouter dbname d =
     \<lparr>name = dbname, db = d, actions = Map.empty, options = Map.empty, syncs = Map.empty\<rparr>"

definition action :: "string \<Rightarrow> ('d, 'h) ConceptRouter \<Rightarrow> error + 'h js_value" where
  "action n r =
     (if \<not> js_in n (actions r)
      then Inl (Error (''Action '' @ n @ '' does not exist in '' @ name r @ '' concept!''))
      else Inr (js_get n (actions r)))"

definition defineAction ::
  "string \<Rightarrow> 'h \<Rightarrow> addr option \<Rightarrow> ('d, 'h) ConceptRouter
     \<Rightarrow> error + ('d, 'h) ConceptRouter" where
  "defineAction n a opts r =
     (if js_in n (actions r)
      then Inl (Error (''Action '' @ n @ '' already defined in '' @ name r @ '' concept!''))
      else let r1 = r\<lparr>actions := (actions r)(n \<mapsto> a)\<rparr>
           in Inr (case opts of
                     Some p \<Rightarrow> r1\<lparr>options := (options r1)(n \<mapsto> p)\<rparr>
                   | None \<Rightarrow> r1))"

definition sync :: "string \<Rightarrow> 'h \<Rightarrow> ('d, 'h) ConceptRouter \<Rightarrow> error + ('d, 'h) ConceptRouter" where
  "sync n a r =
     (let r1 = (if \<not> js_in n (syncs r) then r\<lparr>syncs := (syncs r)(n \<mapsto> [])\<rparr> else r)
      in case js_get n (syncs r1) of
           Handler xs \<Rightarrow> Inr (r1\<lparr>syncs := (syncs r1)(n \<mapsto> xs @ [a])\<rparr>)
         | ObjectPrototypeMember k \<Rightarrow> Inl TypeError
         | Undefined \<Rightarrow> Inl TypeError)"

text \<open>\<^verbatim>\<open>options.validate || []\<close> for the options object at \<open>p\<close>, as the heap has it
  now: an array is truthy also when it is empty.\<close>

definition validate_or_empty :: "'h heap \<Rightarrow> addr \<Rightarrow> 'h list" where
  "validate_or_empty h p =
     (case validate (options_at h p) of Some q \<Rightarrow> array_at h q | None \<Rightarrow> [])"

text \<open>\<^verbatim>\<open>handlers\<close> builds a new array at each call from the heap \<open>h\<close> of that moment. A
  member inherited from \<^verbatim>\<open>Object.prototype\<close> has no \<^verbatim>\<open>validate\<close> property.\<close>

definition handlers ::
  "string \<Rightarrow> ('d, 'h) ConceptRouter \<Rightarrow> 'h heap \<Rightarrow> error + 'h js_value list" where
  "handlers n r h =
     (if \<not> js_in n (actions r)
      then Inl (Error (''Action '' @ n @ '' is not defined!''))
      else let hs = (if js_in n (options r)
                     then (case options r n of
                             Some p \<Rightarrow> validate_or_empty h p
                           | None \<Rightarrow> [])
                     else [])
           in Inr (map Handler hs @ [js_get n (actions r)]))"

text \<open>The error \<^verbatim>\<open>DuplicateActionError\<close> of the specification is the \<^verbatim>\<open>Error\<close>
  thrown by \<^verbatim>\<open>defineAction\<close>; \<^verbatim>\<open>UnknownActionError\<close> is the one thrown by
  \<^verbatim>\<open>action\<close> and, with another message, by \<^verbatim>\<open>handlers\<close>.\<close>

definition DuplicateActionError :: "string \<Rightarrow> string \<Rightarrow> error" where
  "DuplicateActionError n c = Error (''Action '' @ n @ '' already defined in '' @ c @ '' concept!'')"

definition UnknownActionError_action :: "string \<Rightarrow> string \<Rightarrow> error" where
  "UnknownActionError_action n c = Error (''Action '' @ n @ '' does not exist in '' @ c @ '' concept!'')"

definition UnknownActionError_handlers :: "string \<Rightarrow> error" where
  "UnknownActionError_handlers n = Error (''Action '' @ n @ '' is not defined!'')"

subsection \<open>Sequences of calls\<close>

text \<open>A call on a router, and the router it leaves behind. Every \<^verbatim>\<open>throw\<close> of the class
  happens before the first assignment of its method, so a call that throws leaves the
  router as it was; \<^verbatim>\<open>action\<close> and \<^verbatim>\<open>handlers\<close> assign nothing.\<close>

datatype 'h call =
    DefineAction string 'h "addr option"
  | Sync string 'h
  | Action string
  | Handlers string

fun after :: "'h call \<Rightarrow> ('d, 'h) ConceptRouter \<Rightarrow> ('d, 'h) ConceptRouter" where
  "after (DefineAction n a opts) r = (case defineAction n a opts r of Inl e \<Rightarrow> r | Inr r' \<Rightarrow> r')"
| "after (Sync n a) r = (case sync n a r of Inl e \<Rightarrow> r | Inr r' \<Rightarrow> r')"
| "after (Action n) r = r"
| "after (Handlers n) r = r"

definition after_all :: "'h call list \<Rightarrow> ('d, 'h) ConceptRouter \<Rightarrow> ('d, 'h) ConceptRouter" where
  "after_all cs r = fold after cs r"

text \<open>
  Between two calls the caller may also change the objects it has registered: push onto
  an array (\<^verbatim>\<open>vs.push(f)\<close>), change it in place in any other way
  (\<^verbatim>\<open>vs.length = 0\<close>, \<^verbatim>\<open>vs.splice(...)\<close>, ...) or assign the
  \<^verbatim>\<open>validate\<close> property of an options object. No method of the router writes to the
  heap, and no write of the caller reaches the tables, which are private.
\<close>

datatype 'h event =
    Call "'h call"
  | Push addr 'h
  | WriteArray addr "'h list"
  | WriteValidate addr "addr option"

fun is_Call :: "'h event \<Rightarrow> bool" where
  "is_Call (Call c) = True"
| "is_Call (Push q f) = False"
| "is_Call (WriteArray q vs) = False"
| "is_Call (WriteValidate p v) = False"

fun step :: "'h event \<Rightarrow> ('d, 'h) ConceptRouter \<times> 'h heap \<Rightarrow> ('d, 'h) ConceptRouter \<times> 'h heap" where
  "step (Call c) (r, h) = (after c r, h)"
| "step (Push q f) (r, h) = (r, h\<lparr>array_at := (array_at h)(q := array_at h q @ [f])\<rparr>)"
| "step (WriteArray q vs) (r, h) = (r, h\<lparr>array_at := (array_at h)(q := vs)\<rparr>)"
| "step (WriteValidate p v) (r, h) =
     (r, h\<lparr>options_at := (options_at h)(p := (options_at h p)\<lparr>validate := v\<rparr>)\<rparr>)"

definition run ::
  "'h event list \<Rightarrow> ('d, 'h) ConceptRouter \<times> 'h heap \<Rightarrow> ('d, 'h) ConceptRouter \<times> 'h heap" where
  "run es s = fold step es s"

text \<open>What \<^verbatim>\<open>handlers(n)\<close> returns once the events \<open>es\<close> have happened.\<close>

definition handlers_after ::
  "'h event list \<Rightarrow> string \<Rightarrow> ('d, 'h) ConceptRouter \<times> 'h heap \<Rightarrow> error + 'h js_value list" where
  "handlers_after es n s = (case run es s of (r, h) \<Rightarrow> handlers n r h)"

text \<open>A heap given by the objects it holds: every other address names an options object
  without \<^verbatim>\<open>validate\<close>, or an empty array.\<close>

definition heap_of :: "(addr \<times> ActionOptions) list \<Rightarrow> (addr \<times> 'h list) list \<Rightarrow> 'h heap" where
  "heap_of os as =
     \<lparr>options_at = (\<lambda>p. case map_of os p of Some ops \<Rightarrow> ops | None \<Rightarrow> \<lparr>validate = None\<rparr>),
      array_at = (\<lambda>q. case map_of as q of Some vs \<Rightarrow> vs | None \<Rightarrow> [])\<rparr>"

text \<open>The options object at \<open>p\<close> and the array it refers to are in \<open>h2\<close> as they were
  in \<open>h\<close>.\<close>

definition same_options :: "'h heap \<Rightarrow> 'h heap \<Rightarrow> addr \<Rightarrow> bool" where
  "same_options h h2 p =
     (options_at h2 p = options_at h p
      \<and> (case validate (options_at h p) of
           Some q \<Rightarrow> array_at h2 q = array_at h q
         | None \<Rightarrow> True))"

section \<open>The generated read, update and delete actions\<close>

text \<open>
  A document is a JavaScript object: a map from field names to values. A request carries
  the fields the action bodies read (\<^verbatim>\<open>req.body.partialDocument\<close>,
  \<^verbatim>\<open>req.query.filter\<close>, \<^verbatim>\<open>req.params._id\<close>), at the types the bodies cast them
  to. A handler answers with \<^verbatim>\<open>res.json(...)\<close>, passes on with \<^verbatim>\<open>next()\<close>, or
  throws; the \<^verbatim>\<open>await\<close>s of a body run one after the other, so a body is a function
  of the request and the state \<open>'s\<close> of the store.
\<close>

type_synonym ObjectId = string

datatype json = Str string | Num int | Oid ObjectId

type_synonym document = "string \<rightharpoonup> json"

record 'f request =
  body_partialDocument :: document
  query_filter :: 'f
  params_id :: string

datatype reply = Json_document "document option" | Json_documents "document list" | Next

type_synonym ('f, 's) RequestHandler = "'f request \<Rightarrow> 's \<Rightarrow> (error + reply) \<times> 's"

text \<open>The second argument of \<^verbatim>\<open>readMany\<close>: \<^verbatim>\<open>{ 'sort': { dateUpdated: -1 } }\<close>.\<close>

record FindOptions =
  sort_spec :: "(string \<times> int) list"

text \<open>
  The store collaborator \<^verbatim>\<open>this.db\<close> as the bodies use it: each method may throw, and
  may change the store. The constructor \<^verbatim>\<open>new ObjectId(s)\<close> of the driver, which
  throws on a malformed string, is the parameter \<open>mk\<close> of the bodies that call it.
\<close>

record ('f, 's) ConceptDb =
  db_name :: string
  readMany :: "'f \<Rightarrow> FindOptions \<Rightarrow> 's \<Rightarrow> (error + document list) \<times> 's"
  updateOneById :: "ObjectId \<Rightarrow> document \<Rightarrow> 's \<Rightarrow> (error + unit) \<times> 's"
  readOneById :: "ObjectId \<Rightarrow> 's \<Rightarrow> (error + document option) \<times> 's"
  popOneById :: "ObjectId \<Rightarrow> 's \<Rightarrow> (error + document option) \<times> 's"

definition read_body :: "('f, 's) ConceptDb \<Rightarrow> ('f, 's) RequestHandler" where
  "read_body d req s =
     (let filter = query_filter req
      in case readMany d filter \<lparr>sort_spec = [(''dateUpdated'', - 1)]\<rparr> s of
           (Inl e, s1) \<Rightarrow> (Inl e, s1)
         | (Inr documents, s1) \<Rightarrow> (Inr (Json_documents documents), s1))"

definition update_body ::
  "(string \<Rightarrow> error + ObjectId) \<Rightarrow> ('f, 's) ConceptDb \<Rightarrow> ('f, 's) RequestHandler" where
  "update_body mk d req s =
     (let update = body_partialDocument req
      in case mk (params_id req) of
           Inl e \<Rightarrow> (Inl e, s)
         | Inr oid \<Rightarrow>
             (case updateOneById d oid update s of
                (Inl e, s1) \<Rightarrow> (Inl e, s1)
              | (Inr u, s1) \<Rightarrow>
                  (case readOneById d oid s1 of
                     (Inl e, s2) \<Rightarrow> (Inl e, s2)
                   | (Inr document, s2) \<Rightarrow> (Inr (Json_document document), s2))))"

definition delete_body ::
  "(string \<Rightarrow> error + ObjectId) \<Rightarrow> ('f, 's) ConceptDb \<Rightarrow> ('f, 's) RequestHandler" where
  "delete_body mk d req s =
     (case mk (params_id req) of
        Inl e \<Rightarrow> (Inl e, s)
      | Inr oid \<Rightarrow>
          (case popOneById d oid s of
             (Inl e, s1) \<Rightarrow> (Inl e, s1)
           | (Inr document, s1) \<Rightarrow> (Inr (Json_document document), s1)))"

type_synonym ('f, 's) Router = "(('f, 's) ConceptDb, ('f, 's) RequestHandler) ConceptRouter"

definition defineReadAction ::
  "addr option \<Rightarrow> ('f, 's) Router \<Rightarrow> error + ('f, 's) Router" where
  "defineReadAction opts r = defineAction ''read'' (read_body (db r)) opts r"

definition defineUpdateAction ::
  "(string \<Rightarrow> error + ObjectId) \<Rightarrow> addr option
     \<Rightarrow> ('f, 's) Router \<Rightarrow> error + ('f, 's) Router" where
  "defineUpdateAction mk opts r = defineAction ''update'' (update_body mk (db r)) opts r"

definition defineDeleteAction ::
  "(string \<Rightarrow> error + ObjectId) \<Rightarrow> addr option
     \<Rightarrow> ('f, 's) Router \<Rightarrow> error + ('f, 's) Router" where
  "defineDeleteAction mk opts r = defineAction ''delete'' (delete_body mk (db r)) opts r"

section \<open>The document store\<close>

text \<open>
  Modelled from the spec: the module \<^verbatim>\<open>./conceptDb\<close> (the class \<^verbatim>\<open>ConceptDb\<close> and
  the type \<^verbatim>\<open>ConceptBase\<close>) is imported by the router and is not among the source
  files. The specification gives the collaborator as
  \<^verbatim>\<open>readMany(filter, sortSpec)\<close> returning a sequence of documents (all the matching
  ones, in the order asked for), \<^verbatim>\<open>updateOneById(id, partialDocument)\<close> applying the
  patch's fields to the identified document, \<^verbatim>\<open>readOneById(id)\<close> returning the
  document or absent, and \<^verbatim>\<open>popOneById(id)\<close> returning the removed document or
  absent. The store is the list of its documents; a document is identified by its field
  \<^verbatim>\<open>_id\<close>; a filter is a list of required field values, the empty list matching every
  document; a sort specification orders by its first field first, descending where the
  direction is negative, with a missing or non-numeric field counted as 0.
\<close>

type_synonym collection = "document list"

type_synonym query = "(string \<times> json) list"

text \<open>Modelled from the spec: when a document satisfies the filter expression handed to \<^verbatim>\<open>readMany\<close> of the absent \<^verbatim>\<open>./conceptDb\<close>.\<close>

definition matches :: "query \<Rightarrow> document \<Rightarrow> bool" where
  "matches q d = list_all (\<lambda>(k, v). d k = Some v) q"

text \<open>Modelled from the spec: the number a document is ordered by under a sort field; \<^verbatim>\<open>./conceptDb\<close> is absent.\<close>

definition field_num :: "string \<Rightarrow> document \<Rightarrow> int" where
  "field_num k d = (case d k of Some (Num t) \<Rightarrow> t | _ \<Rightarrow> 0)"

text \<open>Modelled from the spec: the order \<^verbatim>\<open>readMany\<close> of the absent \<^verbatim>\<open>./conceptDb\<close> gives its result under a sort specification.\<close>

fun sort_by :: "(string \<times> int) list \<Rightarrow> document list \<Rightarrow> document list" where
  "sort_by [] ds = ds"
| "sort_by ((k, dir) # rest) ds =
     sort_key (\<lambda>d. if dir < 0 then - field_num k d else field_num k d) (sort_by rest ds)"

text \<open>Modelled from the spec: the document an identifier names in the store of the absent \<^verbatim>\<open>./conceptDb\<close>.\<close>

definition has_id :: "ObjectId \<Rightarrow> document \<Rightarrow> bool" where
  "has_id i d = (d ''_id'' = Some (Oid i))"

text \<open>Modelled from the spec: the store after \<^verbatim>\<open>updateOneById\<close> of the absent \<^verbatim>\<open>./conceptDb\<close>.\<close>

fun update_first :: "ObjectId \<Rightarrow> document \<Rightarrow> collection \<Rightarrow> collection" where
  "update_first i patch [] = []"
| "update_first i patch (d # ds) =
     (if has_id i d then (d ++ patch) # ds else d # update_first i patch ds)"

text \<open>Modelled from the spec: the store after \<^verbatim>\<open>popOneById\<close> of the absent \<^verbatim>\<open>./conceptDb\<close>.\<close>

fun remove_first :: "ObjectId \<Rightarrow> collection \<Rightarrow> collection" where
  "remove_first i [] = []"
| "remove_first i (d # ds) = (if has_id i d then ds else d # remove_first i ds)"

text \<open>Modelled from the spec: \<^verbatim>\<open>readMany\<close> of the absent \<^verbatim>\<open>./conceptDb\<close>.\<close>

definition store_readMany ::
  "query \<Rightarrow> FindOptions \<Rightarrow> collection \<Rightarrow> (error + document list) \<times> collection" where
  "store_readMany q opts ds = (Inr (sort_by (sort_spec opts) (filter (matches q) ds)), ds)"

text \<open>Modelled from the spec: \<^verbatim>\<open>updateOneById\<close> of the absent \<^verbatim>\<open>./conceptDb\<close>.\<close>

definition store_updateOneById ::
  "ObjectId \<Rightarrow> document \<Rightarrow> collection \<Rightarrow> (error + unit) \<times> collection" where
  "store_updateOneById i patch ds = (Inr (), update_first i patch ds)"

text \<open>Modelled from the spec: \<^verbatim>\<open>readOneById\<close> of the absent \<^verbatim>\<open>./conceptDb\<close>.\<close>

definition store_readOneById ::
  "ObjectId \<Rightarrow> collection \<Rightarrow> (error + document option) \<times> collection" where
  "store_readOneById i ds = (Inr (find (has_id i) ds), ds)"

text \<open>Modelled from the spec: \<^verbatim>\<open>popOneById\<close> of the absent \<^verbatim>\<open>./conceptDb\<close>.\<close>

definition store_popOneById ::
  "ObjectId \<Rightarrow> collection \<Rightarrow> (error + document option) \<times> collection" where
  "store_popOneById i ds = (Inr (find (has_id i) ds), remove_first i ds)"

text \<open>Modelled from the spec: an instance of the absent class \<^verbatim>\<open>ConceptDb\<close> over a list of documents.\<close>

definition conceptDb :: "string \<Rightarrow> (query, collection) ConceptDb" where
  "conceptDb nm =
     \<lparr>db_name = nm, readMany = store_readMany, updateOneById = store_updateOneById,
      readOneById = store_readOneById, popOneById = store_popOneById\<rparr>"

section \<open>Properties of the registry\<close>

lemma js_in_own: "obj k = Some v \<Longrightarrow> js_in k obj"
  by (simp add: js_in_def)

lemma defineAction_Inr:
  "defineAction n a opts r = Inr r' \<Longrightarrow>
     \<not> js_in n (actions r) \<and> actions r' = (actions r)(n \<mapsto> a) \<and> name r' = name r
     \<and> syncs r' = syncs r \<and> db r' = db r
     \<and> options r' = (case opts of None \<Rightarrow> options r | Some ops \<Rightarrow> (options r)(n \<mapsto> ops))"
  by (auto simp: defineAction_def Let_def split: if_splits option.splits)

lemma defineAction_registered_name_rejected:
  assumes "defineAction n a opts r = Inr r1"
  shows "defineAction n a' opts' r1 = Inl (DuplicateActionError n (name r1))
       \<and> after (DefineAction n a' opts') r1 = r1
       \<and> action n r1 = Inr (Handler a)
       \<and> (\<exists>vs. handlers n r1 h = Inr (vs @ [Handler a]))"
proof -
  from assms have own: "actions r1 n = Some a"
    by (auto dest: defineAction_Inr)
  then have inn: "js_in n (actions r1)"
    by (rule js_in_own)
  have dup: "defineAction n a' opts' r1 = Inl (DuplicateActionError n (name r1))"
    using inn by (simp add: defineAction_def DuplicateActionError_def)
  then have same: "after (DefineAction n a' opts') r1 = r1"
    by simp
  have act: "action n r1 = Inr (Handler a)"
    using inn own by (simp add: action_def js_get_def)
  have "\<exists>vs. handlers n r1 h = Inr (vs @ [Handler a])"
    using inn own by (simp add: handlers_def js_get_def Let_def)
  with dup same act show ?thesis
    by simp
qed

text \<open>
  Claim C1, at a name the code gets wrong. On a router on which nothing was ever
  registered, the first \<open>defineAction\<close> of the name \<^verbatim>\<open>toString\<close> already throws the
  duplicate-action error, because \<^verbatim>\<open>name in this.actions\<close> finds the name through the
  prototype of the table. Nothing is stored: after the call, \<open>action\<close> returns the
  inherited \<^verbatim>\<open>Object.prototype.toString\<close> and not the body that was given, and
  \<open>handlers\<close> returns the one-element list holding it.
\<close>

theorem defineAction_inherited_name_rejected:
  "defineAction ''toString'' (1::nat) None (new_ConceptRouter ''posts'' ())
     = Inl (DuplicateActionError ''toString'' ''posts'')
   \<and> action ''toString''
       (after (DefineAction ''toString'' (1::nat) None) (new_ConceptRouter ''posts'' ()))
     = Inr (ObjectPrototypeMember ''toString'')
   \<and> handlers ''toString''
       (after (DefineAction ''toString'' (1::nat) None) (new_ConceptRouter ''posts'' ()))
       (heap_of [] [])
     = Inr [ObjectPrototypeMember ''toString'']"
  by (simp add: defineAction_def action_def handlers_def js_in_def js_get_def
      new_ConceptRouter_def DuplicateActionError_def Object_prototype_keys_def)

lemma sync_Inr:
  "sync n a r = Inr r' \<Longrightarrow>
     actions r' = actions r \<and> options r' = options r \<and> name r' = name r \<and> db r' = db r"
  by (auto simp: sync_def Let_def split: if_splits js_value.splits)

lemma after_keeps_action:
  assumes "actions r n = Some a"
  shows "actions (after c r) n = Some a \<and> options (after c r) n = options r n"
proof (cases c)
  case (DefineAction n' a' opts')
  show ?thesis
  proof (cases "defineAction n' a' opts' r")
    case (Inl e)
    with DefineAction show ?thesis using assms by simp
  next
    case (Inr r')
    note facts = defineAction_Inr [OF Inr]
    from facts assms have "n' \<noteq> n"
      by (auto simp: js_in_def)
    with facts DefineAction Inr assms show ?thesis
      by (auto split: option.splits)
  qed
next
  case (Sync n' a')
  then show ?thesis using assms
    by (auto split: sum.splits dest: sync_Inr)
qed (use assms in simp_all)

lemma after_all_keeps_action:
  "actions r n = Some a \<Longrightarrow>
     actions (after_all cs r) n = Some a \<and> options (after_all cs r) n = options r n"
proof (induction cs arbitrary: r)
  case Nil
  then show ?case by (simp add: after_all_def)
next
  case (Cons c cs)
  from Cons.prems have step: "actions (after c r) n = Some a \<and> options (after c r) n = options r n"
    by (rule after_keeps_action)
  with Cons.IH [of "after c r"] show ?case
    by (simp add: after_all_def)
qed

lemma run_keeps_action:
  "actions r n = Some a \<Longrightarrow> run es (r, h) = (r2, h2) \<Longrightarrow>
     actions r2 n = Some a \<and> options r2 n = options r n"
proof (induction es arbitrary: r h)
  case Nil
  then show ?case by (simp add: run_def)
next
  case (Cons e es)
  obtain r' h' where st: "step e (r, h) = (r', h')"
    by (cases "step e (r, h)")
  have keep: "actions r' n = Some a \<and> options r' n = options r n"
  proof (cases e)
    case (Call c)
    with st have "r' = after c r" by simp
    with after_keeps_action [OF Cons.prems(1), of c] show ?thesis by simp
  next
    case (Push q f)
    with st Cons.prems(1) show ?thesis by auto
  next
    case (WriteArray q vs)
    with st Cons.prems(1) show ?thesis by auto
  next
    case (WriteValidate p v)
    with st Cons.prems(1) show ?thesis by auto
  qed
  from Cons.prems(2) st have "run es (r', h') = (r2, h2)"
    by (simp add: run_def)
  with Cons.IH [of r' h'] keep show ?case
    by simp
qed

lemma run_calls_heap:
  "list_all is_Call es \<Longrightarrow> run es (r, h) = (r2, h2) \<Longrightarrow> h2 = h"
proof (induction es arbitrary: r)
  case Nil
  then show ?case by (simp add: run_def)
next
  case (Cons e es)
  from Cons.prems(1) obtain c where e: "e = Call c"
    by (cases e) simp_all
  from Cons.prems(2) e have "run es (after c r, h) = (r2, h2)"
    by (simp add: run_def)
  moreover from Cons.prems(1) have "list_all is_Call es"
    by simp
  ultimately show ?case
    by (rule Cons.IH [rotated])
qed

lemma same_options_refl: "same_options h h p"
  by (simp add: same_options_def split: option.splits)

lemma same_options_validate:
  "same_options h h2 p \<Longrightarrow> validate_or_empty h2 p = validate_or_empty h p"
  by (auto simp: same_options_def validate_or_empty_def split: option.splits)

lemma handlers_own:
  assumes "actions r n = Some a"
  shows "handlers n r h =
     Inr (map Handler ((case options r n of
                          Some p \<Rightarrow> validate_or_empty h p
                        | None \<Rightarrow> []) @ [a]))"
  using assms by (auto simp: handlers_def js_in_def js_get_def Let_def split: option.splits)

lemma after_keeps_subset:
  assumes "dom (options r) \<subseteq> dom (actions r)"
  shows "dom (options (after c r)) \<subseteq> dom (actions (after c r))"
proof (cases c)
  case (DefineAction n a opts)
  show ?thesis
  proof (cases "defineAction n a opts r")
    case (Inl e)
    with DefineAction assms show ?thesis by simp
  next
    case (Inr r')
    note facts = defineAction_Inr [OF Inr]
    have a: "actions r' = (actions r)(n \<mapsto> a)"
      using facts by simp
    have b: "options r' = (case opts of None \<Rightarrow> options r | Some ops \<Rightarrow> (options r)(n \<mapsto> ops))"
      using facts by simp
    have "dom (options r') \<subseteq> insert n (dom (options r))"
      by (cases opts) (simp_all add: b subset_insertI)
    also have "\<dots> \<subseteq> insert n (dom (actions r))"
      using assms by (rule insert_mono)
    also have "\<dots> = dom (actions r')"
      by (simp add: a)
    finally have "dom (options r') \<subseteq> dom (actions r')" .
    with DefineAction Inr show ?thesis by simp
  qed
next
  case (Sync n a)
  show ?thesis
  proof (cases "sync n a r")
    case (Inl e)
    with Sync assms show ?thesis by simp
  next
    case (Inr r')
    from sync_Inr [OF Inr] assms have "dom (options r') \<subseteq> dom (actions r')"
      by simp
    with Sync Inr show ?thesis by simp
  qed
qed (use assms in simp_all)

lemma after_all_keeps_subset:
  "dom (options r) \<subseteq> dom (actions r) \<Longrightarrow>
     dom (options (after_all cs r)) \<subseteq> dom (actions (after_all cs r))"
proof (induction cs arbitrary: r)
  case Nil
  then show ?case by (simp add: after_all_def)
next
  case (Cons c cs)
  from Cons.IH [OF after_keeps_subset [OF Cons.prems, of c]] show ?case
    by (simp add: after_all_def)
qed

lemma unknown_name_fails:
  assumes "actions r n = None" and "n \<notin> set Object_prototype_keys"
  shows "action n r = Inl (UnknownActionError_action n (name r))"
    and "handlers n r h = Inl (UnknownActionError_handlers n)"
  using assms
  by (simp_all add: action_def handlers_def js_in_def UnknownActionError_action_def
      UnknownActionError_handlers_def)

lemma sync_appends:
  assumes "n \<notin> set Object_prototype_keys"
  shows "sync n a r =
     Inr (r\<lparr>syncs := (syncs r)(n \<mapsto> (case syncs r n of None \<Rightarrow> [] | Some xs \<Rightarrow> xs) @ [a])\<rparr>)"
  using assms by (auto simp: sync_def js_in_def js_get_def Let_def split: option.splits)

lemma sync_twice:
  assumes "n \<notin> set Object_prototype_keys" and "syncs r n = None"
  shows "\<exists>r1 r2. sync n f1 r = Inr r1 \<and> sync n f2 r1 = Inr r2 \<and> syncs r2 n = Some [f1, f2]"
proof -
  let ?r1 = "r\<lparr>syncs := (syncs r)(n \<mapsto> [f1])\<rparr>"
  let ?r2 = "?r1\<lparr>syncs := (syncs ?r1)(n \<mapsto> [f1, f2])\<rparr>"
  have "sync n f1 r = Inr ?r1"
    using assms by (simp add: sync_appends)
  moreover have "sync n f2 ?r1 = Inr ?r2"
    using assms(1) by (simp add: sync_appends)
  moreover have "syncs ?r2 n = Some [f1, f2]"
    by simp
  ultimately show ?thesis
    by blast
qed

text \<open>
  Claim C2, at a name the code gets wrong. On a router on which nothing was ever
  registered, the name \<^verbatim>\<open>toString\<close> is found by \<^verbatim>\<open>in\<close> through the prototype of the
  table: \<open>action\<close> returns the inherited \<^verbatim>\<open>Object.prototype.toString\<close> and
  \<open>handlers\<close> returns the one-element list holding it, whatever the heap; neither
  throws.
\<close>

theorem action_inherited_name_not_unknown:
  "action ''toString'' (new_ConceptRouter ''posts'' () :: (unit, nat) ConceptRouter)
     = Inr (ObjectPrototypeMember ''toString'')
   \<and> handlers ''toString'' (new_ConceptRouter ''posts'' () :: (unit, nat) ConceptRouter) h
     = Inr [ObjectPrototypeMember ''toString'']"
  by (simp add: action_def handlers_def js_in_def js_get_def new_ConceptRouter_def
      Object_prototype_keys_def)

text \<open>
  Claim C3, as the code has it. When \<open>defineAction n b\<close> succeeds with the options
  object at \<open>p\<close>, then at every later moment, after any calls on the router and any
  writes of the caller to its objects, \<open>handlers n\<close> returns what the validators array
  of that object holds at that moment, in order, followed by the body \<open>b\<close>. As long as
  the object and its array are as they were at registration, when the array held
  \<open>vs\<close>, this is \<open>vs\<close> followed by \<open>b\<close>; the calls on the router never change them.
\<close>

theorem handlers_validators_then_body:
  assumes "defineAction n b (Some p) r = Inr r1" and "run es (r1, h) = (r2, h2)"
  shows "handlers n r2 h2 = Inr (map Handler (validate_or_empty h2 p @ [b]))
       \<and> (validate (options_at h p) = Some q \<and> array_at h q = vs \<and> same_options h h2 p
            \<longrightarrow> handlers n r2 h2 = Inr (map Handler (vs @ [b])))
       \<and> (list_all is_Call es \<longrightarrow> same_options h h2 p)"
proof -
  from assms(1) have "actions r1 n = Some b" and "options r1 n = Some p"
    by (auto dest: defineAction_Inr)
  then have "actions r2 n = Some b" and "options r2 n = Some p"
    using run_keeps_action [OF _ assms(2), of n b] by simp_all
  then have now: "handlers n r2 h2 = Inr (map Handler (validate_or_empty h2 p @ [b]))"
    by (simp add: handlers_own)
  have kept: "handlers n r2 h2 = Inr (map Handler (vs @ [b]))"
    if "validate (options_at h p) = Some q \<and> array_at h q = vs \<and> same_options h h2 p"
  proof -
    from that have "validate_or_empty h2 p = validate_or_empty h p"
      by (simp add: same_options_validate)
    also from that have "\<dots> = vs"
      by (simp add: validate_or_empty_def)
    finally show ?thesis
      using now by simp
  qed
  have calls: "same_options h h2 p" if "list_all is_Call es"
    using run_calls_heap [OF that assms(2)] by (simp add: same_options_refl)
  from now kept calls show ?thesis
    by (intro conjI impI)
qed

theorem handlers_validators_then_body_witness:
  "handlers ''read''
     (new_ConceptRouter ''posts'' ()
        \<lparr>actions := [''read'' \<mapsto> 3], options := [''read'' \<mapsto> 0], syncs := [''read'' \<mapsto> [7]]\<rparr>)
     (heap_of [(0, \<lparr>validate = Some 1\<rparr>)] [(1, [1, 2])])
   = Inr [Handler (1::nat), Handler 2, Handler 3]"
proof -
  let ?h = "heap_of [(0, \<lparr>validate = Some 1\<rparr>)] [(1, [1, 2::nat])]"
  let ?r1 = "new_ConceptRouter ''posts'' ()\<lparr>actions := [''read'' \<mapsto> 3::nat], options := [''read'' \<mapsto> 0]\<rparr>"
  let ?es = "[Call (Sync ''read'' 7), Call (DefineAction ''read'' 8 None), Call (Handlers ''read'')]"
  have h1: "defineAction ''read'' (3::nat) (Some 0) (new_ConceptRouter ''posts'' ()) = Inr ?r1"
    by (simp add: defineAction_def new_ConceptRouter_def js_in_def Object_prototype_keys_def)
  have h2: "run ?es (?r1, ?h) = (?r1\<lparr>syncs := [''read'' \<mapsto> [7]]\<rparr>, ?h)"
    by (simp add: run_def defineAction_def sync_def new_ConceptRouter_def js_in_def js_get_def
        Object_prototype_keys_def)
  have h3: "validate (options_at ?h 0) = Some 1 \<and> array_at ?h 1 = [1, 2] \<and> same_options ?h ?h 0"
    by (simp add: same_options_def heap_of_def)
  have "validate (options_at ?h 0) = Some 1 \<and> array_at ?h 1 = [1, 2] \<and> same_options ?h ?h 0
      \<longrightarrow> handlers ''read'' (?r1\<lparr>syncs := [''read'' \<mapsto> [7]]\<rparr>) ?h
          = Inr (map Handler ([1, 2] @ [3]))"
    using handlers_validators_then_body [OF h1 h2, of 1 "[1, 2]"] by (elim conjE)
  with h3 show ?thesis
    by simp
qed

text \<open>
  Claim C3, as stated, fails. A name is registered with the body \<open>3\<close> and an options
  object whose validators array holds \<open>[1]\<close>: \<open>handlers\<close> returns \<open>[1, 3]\<close>. The
  caller then pushes \<open>2\<close> onto the array it registered: \<open>handlers\<close> returns
  \<open>[1, 2, 3]\<close>, not the list supplied at registration followed by the body.
\<close>

theorem handlers_after_push_counterexample:
  "handlers_after [Call (DefineAction ''a'' 3 (Some 0))] ''a''
     (new_ConceptRouter ''posts'' (), heap_of [(0, \<lparr>validate = Some 1\<rparr>)] [(1, [1::nat])])
     = Inr [Handler 1, Handler 3]
   \<and> handlers_after [Call (DefineAction ''a'' 3 (Some 0)), Push 1 2] ''a''
     (new_ConceptRouter ''posts'' (), heap_of [(0, \<lparr>validate = Some 1\<rparr>)] [(1, [1::nat])])
     = Inr [Handler 1, Handler 2, Handler 3]"
  by (simp add: handlers_after_def run_def defineAction_def handlers_def validate_or_empty_def
      heap_of_def js_in_def js_get_def new_ConceptRouter_def Object_prototype_keys_def)

text \<open>
  Claim C4, at a name the code gets wrong. For the name \<^verbatim>\<open>toString\<close> the test
  \<^verbatim>\<open>name in this.syncs\<close> succeeds through the prototype, no list is created, and
  \<^verbatim>\<open>this.syncs[name].push\<close> is not a function: \<open>sync\<close> throws a TypeError on a
  router that has no syncs at all.
\<close>

theorem sync_inherited_name_throws:
  "sync ''toString'' (1::nat) (new_ConceptRouter ''posts'' ()) = Inl TypeError"
  by (simp add: sync_def js_in_def js_get_def new_ConceptRouter_def Object_prototype_keys_def)

text \<open>
  Claim C5, as the code has it. A successful \<open>defineAction n a opts\<close> stores \<open>a\<close>
  under \<open>n\<close> in the actions table; it stores the options under \<open>n\<close> in the options
  table exactly when an options argument is given, whether or not that argument carries a
  validator list, and leaves the options table as it was when no argument is given. The
  syncs table is not touched.
\<close>

theorem defineAction_inserts:
  assumes "defineAction n a opts r = Inr r'"
  shows "actions r' = (actions r)(n \<mapsto> a)
       \<and> options r' = (case opts of Some ops \<Rightarrow> (options r)(n \<mapsto> ops) | None \<Rightarrow> options r)
       \<and> syncs r' = syncs r"
  using defineAction_Inr [OF assms] by simp

theorem defineAction_inserts_witness:
  "actions (new_ConceptRouter ''posts'' ()\<lparr>actions := [''a'' \<mapsto> 1::nat]\<rparr>) ''a'' = Some 1
   \<and> options (new_ConceptRouter ''posts'' ()\<lparr>actions := [''a'' \<mapsto> 1::nat]\<rparr>) ''a'' = None"
proof -
  have h: "defineAction ''a'' (1::nat) None (new_ConceptRouter ''posts'' ()) =
     Inr (new_ConceptRouter ''posts'' ()\<lparr>actions := [''a'' \<mapsto> 1]\<rparr>)"
    by (simp add: defineAction_def new_ConceptRouter_def js_in_def Object_prototype_keys_def)
  show ?thesis
    using defineAction_inserts [OF h] by (simp add: new_ConceptRouter_def)
qed

text \<open>
  Claim C5, as stated, fails: an options object that carries no validator list is still
  inserted into the options table, which was empty before the call.
\<close>

theorem defineAction_options_without_validators_counterexample:
  "validate (options_at (heap_of [(0, \<lparr>validate = None\<rparr>)] [] :: nat heap) 0) = None
   \<and> defineAction ''a'' (1::nat) (Some 0) (new_ConceptRouter ''posts'' ())
     = Inr (new_ConceptRouter ''posts'' ()\<lparr>actions := [''a'' \<mapsto> 1], options := [''a'' \<mapsto> 0]\<rparr>)
   \<and> options (new_ConceptRouter ''posts'' () :: (unit, nat) ConceptRouter) ''a'' = None
   \<and> options (new_ConceptRouter ''posts'' ()\<lparr>actions := [''a'' \<mapsto> 1::nat], options := [''a'' \<mapsto> 0]\<rparr>) ''a''
     = Some 0"
  by (simp add: defineAction_def heap_of_def new_ConceptRouter_def js_in_def
      Object_prototype_keys_def)

text \<open>
  Claim C9. After any sequence of \<open>defineAction\<close>, \<open>sync\<close>, \<open>action\<close> and
  \<open>handlers\<close> calls on a new router, every own key of the options table is an own key
  of the actions table, and every name that \<^verbatim>\<open>in\<close> finds in the options table it also
  finds in the actions table.
\<close>

theorem options_names_are_actions_names:
  "dom (options (after_all cs (new_ConceptRouter nm d)))
     \<subseteq> dom (actions (after_all cs (new_ConceptRouter nm d)))
   \<and> (\<forall>n. js_in n (options (after_all cs (new_ConceptRouter nm d)))
          \<longrightarrow> js_in n (actions (after_all cs (new_ConceptRouter nm d))))"
proof -
  have "dom (options (new_ConceptRouter nm d)) \<subseteq> dom (actions (new_ConceptRouter nm d))"
    by (simp add: new_ConceptRouter_def)
  then have sub: "dom (options (after_all cs (new_ConceptRouter nm d)))
     \<subseteq> dom (actions (after_all cs (new_ConceptRouter nm d)))"
    by (rule after_all_keeps_subset)
  then show ?thesis
    by (auto simp: js_in_def)
qed

theorem options_names_are_actions_names_witness:
  "js_in ''read''
     (options (after_all [DefineAction ''read'' (3::nat) (Some 0), Sync ''x'' 4]
        (new_ConceptRouter ''posts'' ())))
   \<and> js_in ''read''
     (actions (after_all [DefineAction ''read'' (3::nat) (Some 0), Sync ''x'' 4]
        (new_ConceptRouter ''posts'' ())))"
proof -
  have h: "js_in ''read''
     (options (after_all [DefineAction ''read'' (3::nat) (Some 0), Sync ''x'' 4]
        (new_ConceptRouter ''posts'' ())))"
    by (simp add: after_all_def defineAction_def sync_def new_ConceptRouter_def js_in_def
        js_get_def Object_prototype_keys_def)
  show ?thesis
    using h options_names_are_actions_names
      [of "[DefineAction ''read'' (3::nat) (Some 0), Sync ''x'' 4]" "''posts''" "()"]
    by blast
qed

text \<open>
  Claim C10, as the code has it. On a router reached from a new one by any calls, let
  \<open>defineAction n b\<close> succeed. With no options argument, \<open>handlers n\<close> returns the
  one-element list of the body \<open>b\<close> at every later moment. With an options object
  that at registration carries no validator list, or an empty one, \<open>handlers n\<close>
  returns the same one-element list as long as that object and its array are as they
  were at registration; the calls on the router never change them.
\<close>

theorem handlers_without_validators:
  assumes "defineAction n b opts (after_all cs (new_ConceptRouter nm d)) = Inr r1"
    and "run es (r1, h) = (r2, h2)"
  shows "(opts = None \<longrightarrow> handlers n r2 h2 = Inr [Handler b])
       \<and> (\<forall>p. opts = Some p
              \<and> (validate (options_at h p) = None
                 \<or> (\<exists>q. validate (options_at h p) = Some q \<and> array_at h q = []))
              \<and> same_options h h2 p
            \<longrightarrow> handlers n r2 h2 = Inr [Handler b])
       \<and> (list_all is_Call es \<longrightarrow> (\<forall>p. same_options h h2 p))"
proof -
  let ?r = "after_all cs (new_ConceptRouter nm d)"
  note facts = defineAction_Inr [OF assms(1)]
  have "dom (options (new_ConceptRouter nm d)) \<subseteq> dom (actions (new_ConceptRouter nm d))"
    by (simp add: new_ConceptRouter_def)
  then have sub: "dom (options ?r) \<subseteq> dom (actions ?r)"
    by (rule after_all_keeps_subset)
  from facts have "actions ?r n = None"
    by (simp add: js_in_def)
  with sub have none: "options ?r n = None"
    by (auto simp: dom_def)
  have own: "actions r1 n = Some b"
    using facts by simp
  have kept: "actions r2 n = Some b" and opt: "options r2 n = options r1 n"
    using run_keeps_action [OF own assms(2)] by simp_all
  have a: "handlers n r2 h2 = Inr [Handler b]" if "opts = None"
  proof -
    from that facts none have "options r1 n = None"
      by simp
    with kept opt show ?thesis
      by (simp add: handlers_own)
  qed
  have b: "handlers n r2 h2 = Inr [Handler b]"
    if "opts = Some p
        \<and> (validate (options_at h p) = None
           \<or> (\<exists>q. validate (options_at h p) = Some q \<and> array_at h q = []))
        \<and> same_options h h2 p" for p
  proof -
    from that facts have "options r1 n = Some p"
      by simp
    moreover from that have "validate_or_empty h p = []"
      by (auto simp: validate_or_empty_def)
    moreover from that have "validate_or_empty h2 p = validate_or_empty h p"
      by (simp add: same_options_validate)
    ultimately show ?thesis
      using kept opt by (simp add: handlers_own)
  qed
  have c: "same_options h h2 p" if "list_all is_Call es" for p
    using run_calls_heap [OF that assms(2)] by (simp add: same_options_refl)
  from a b c show ?thesis
    by (intro conjI impI allI)
qed

theorem handlers_without_validators_witness:
  "handlers ''read''
     (new_ConceptRouter ''posts'' ()
        \<lparr>actions := [''read'' \<mapsto> 3::nat], options := [''read'' \<mapsto> 0], syncs := [''read'' \<mapsto> [7]]\<rparr>)
     (heap_of [(0, \<lparr>validate = Some 1\<rparr>)] [(1, [])])
   = Inr [Handler 3]"
proof -
  let ?h = "heap_of [(0, \<lparr>validate = Some 1\<rparr>)] [(1, ([]::nat list))]"
  let ?r1 = "new_ConceptRouter ''posts'' ()\<lparr>actions := [''read'' \<mapsto> 3::nat], options := [''read'' \<mapsto> 0]\<rparr>"
  let ?es = "[Call (Sync ''read'' 7), Call (Handlers ''read'')]"
  have h1: "defineAction ''read'' (3::nat) (Some 0) (after_all [] (new_ConceptRouter ''posts'' ()))
      = Inr ?r1"
    by (simp add: after_all_def defineAction_def new_ConceptRouter_def js_in_def
        Object_prototype_keys_def)
  have h2: "run ?es (?r1, ?h) = (?r1\<lparr>syncs := [''read'' \<mapsto> [7]]\<rparr>, ?h)"
    by (simp add: run_def sync_def new_ConceptRouter_def js_in_def js_get_def
        Object_prototype_keys_def)
  have h3: "(validate (options_at ?h 0) = None
       \<or> (\<exists>q. validate (options_at ?h 0) = Some q \<and> array_at ?h q = []))
     \<and> same_options ?h ?h 0"
    by (simp add: same_options_def heap_of_def)
  have "\<forall>p. Some 0 = Some p
          \<and> (validate (options_at ?h p) = None
             \<or> (\<exists>q. validate (options_at ?h p) = Some q \<and> array_at ?h q = []))
          \<and> same_options ?h ?h p
        \<longrightarrow> handlers ''read'' (?r1\<lparr>syncs := [''read'' \<mapsto> [7]]\<rparr>) ?h = Inr [Handler 3]"
    using handlers_without_validators [OF h1 h2] by (elim conjE)
  with h3 show ?thesis
    by simp
qed

text \<open>
  Claim C10, as stated, fails. A name is registered with the body \<open>3\<close> and an options
  object whose validators array is empty: \<open>handlers\<close> returns \<open>[3]\<close>. The caller
  then pushes \<open>2\<close> onto the array it registered: \<open>handlers\<close> returns \<open>[2, 3]\<close>,
  not the one-element list of the body.
\<close>

theorem handlers_empty_then_push_counterexample:
  "array_at (heap_of [(0, \<lparr>validate = Some 1\<rparr>)] [(1, [])] :: nat heap) 1 = []
   \<and> handlers_after [Call (DefineAction ''read'' 3 (Some 0))] ''read''
     (new_ConceptRouter ''posts'' (), heap_of [(0, \<lparr>validate = Some 1\<rparr>)] [(1, ([]::nat list))])
     = Inr [Handler 3]
   \<and> handlers_after [Call (DefineAction ''read'' 3 (Some 0)), Push 1 2] ''read''
     (new_ConceptRouter ''posts'' (), heap_of [(0, \<lparr>validate = Some 1\<rparr>)] [(1, ([]::nat list))])
     = Inr [Handler 2, Handler 3]"
  by (simp add: handlers_after_def run_def defineAction_def handlers_def validate_or_empty_def
      heap_of_def js_in_def js_get_def new_ConceptRouter_def Object_prototype_keys_def)

section \<open>Properties of the generated actions\<close>

lemma defineAction_own_action:
  "defineAction n a opts r = Inr r1 \<Longrightarrow> action n r1 = Inr (Handler a)"
  by (auto simp: action_def js_in_def js_get_def dest: defineAction_Inr)

lemma matches_empty: "matches [] d"
  by (simp add: matches_def)

lemma sorted_descending:
  "sorted_wrt (\<lambda>x y. field_num k y \<le> field_num k x) (sort_key (\<lambda>d. - field_num k d) ds)"
proof -
  have "sorted (map (\<lambda>d. - field_num k d) (sort_key (\<lambda>d. - field_num k d) ds))"
    by (rule sorted_sort_key)
  then show ?thesis
    by (simp add: sorted_map)
qed

lemma filter_unique:
  assumes "mset xs = {#d1, d2, d3#}" and "P d1" and "\<not> P d2" and "\<not> P d3"
  shows "filter P xs = [d1]"
proof -
  have "mset (filter P xs) = filter_mset P (mset xs)"
    by simp
  also have "\<dots> = {#d1#}"
    using assms by simp
  finally show ?thesis
    by (simp only: mset_single_iff)
qed

lemma three_newest_first:
  fixes f :: "'a \<Rightarrow> int"
  assumes m: "mset xs = {#d1, d2, d3#}" and lt: "f d1 < f d2" "f d2 < f d3"
  shows "sort_key (\<lambda>d. - f d) xs = [d3, d2, d1]"
proof (rule properties_for_sort_key)
  show "mset [d3, d2, d1] = mset xs"
    using m by (simp add: add_mset_commute)
  show "sorted (map (\<lambda>d. - f d) [d3, d2, d1])"
    using lt by simp
  fix k
  assume "k \<in> set [d3, d2, d1]"
  then consider "k = d1" | "k = d2" | "k = d3"
    by auto
  then show "filter (\<lambda>x. - f k = - f x) [d3, d2, d1] = filter (\<lambda>x. - f k = - f x) xs"
  proof cases
    case 1
    have "filter (\<lambda>x. - f k = - f x) xs = [d1]"
      using m lt 1 by (intro filter_unique [of xs d1 d2 d3]) simp_all
    with 1 lt show ?thesis by simp
  next
    case 2
    have "mset xs = {#d2, d1, d3#}"
      using m by (simp add: add_mset_commute)
    then have "filter (\<lambda>x. - f k = - f x) xs = [d2]"
      using lt 2 by (intro filter_unique [of xs d2 d1 d3]) simp_all
    with 2 lt show ?thesis by simp
  next
    case 3
    have "mset xs = {#d3, d1, d2#}"
      using m by (simp add: add_mset_commute)
    then have "filter (\<lambda>x. - f k = - f x) xs = [d3]"
      using lt 3 by (intro filter_unique [of xs d3 d1 d2]) simp_all
    with 3 lt show ?thesis by simp
  qed
qed

lemma read_body_store:
  "read_body (conceptDb nm) req store =
     (Inr (Json_documents
        (sort_key (\<lambda>d. - field_num ''dateUpdated'' d) (filter (matches (query_filter req)) store))),
      store)"
  by (simp add: read_body_def conceptDb_def store_readMany_def)

lemma has_id_patched:
  "patch ''_id'' = None \<Longrightarrow> has_id i (d ++ patch) = has_id i d"
  by (simp add: has_id_def map_add_def)

lemma find_update_first:
  assumes "patch ''_id'' = None"
  shows "find (has_id i) (update_first i patch ds) = map_option (\<lambda>d. d ++ patch) (find (has_id i) ds)"
  using assms by (induction ds) (simp_all add: has_id_patched)

lemma update_body_store:
  assumes "mk (params_id req) = Inr i"
  shows "update_body mk (conceptDb nm) req store =
     (Inr (Json_document (find (has_id i) (update_first i (body_partialDocument req) store))),
      update_first i (body_partialDocument req) store)"
  using assms
  by (simp add: update_body_def conceptDb_def store_updateOneById_def store_readOneById_def Let_def)

lemma remove_first_miss:
  "find (has_id i) ds = None \<Longrightarrow> remove_first i ds = ds"
  by (induction ds) (auto split: if_splits)

lemma remove_first_hit:
  "find (has_id i) ds = Some d \<Longrightarrow> remove_first i ds = remove1 d ds \<and> d \<in> set ds \<and> has_id i d"
  by (induction ds) (auto split: if_splits)

lemma delete_body_store:
  assumes "mk (params_id req) = Inr i"
  shows "delete_body mk (conceptDb nm) req store =
     (Inr (Json_document (find (has_id i) store)), remove_first i store)"
  using assms
  by (simp add: delete_body_def conceptDb_def store_popOneById_def)

text \<open>
  Claim C6. The read generator registers \<open>read_body\<close> under the name \<^verbatim>\<open>read\<close>. Run
  against the store, the body answers with all the documents that match the request's
  filter, each as often as the store holds it, ordered by \<^verbatim>\<open>dateUpdated\<close> from the
  newest to the oldest, and leaves the store as it was. In particular, when the store
  holds three documents updated at times T1 < T2 < T3, in any order, a read with the
  empty filter answers with them in the order T3, T2, T1.
\<close>

theorem read_action_newest_first:
  assumes "defineReadAction opts r = Inr r1" and "db r = conceptDb nm"
  shows "action ''read'' r1 = Inr (Handler (read_body (conceptDb nm)))
       \<and> (\<exists>docs. read_body (conceptDb nm) req store = (Inr (Json_documents docs), store)
             \<and> mset docs = filter_mset (matches (query_filter req)) (mset store)
             \<and> sorted_wrt (\<lambda>x y. field_num ''dateUpdated'' y \<le> field_num ''dateUpdated'' x) docs
             \<and> (query_filter req = [] \<and> mset store = {#d1, d2, d3#}
                  \<and> field_num ''dateUpdated'' d1 < field_num ''dateUpdated'' d2
                  \<and> field_num ''dateUpdated'' d2 < field_num ''dateUpdated'' d3
                \<longrightarrow> docs = [d3, d2, d1]))"
proof -
  let ?docs = "sort_key (\<lambda>d. - field_num ''dateUpdated'' d) (filter (matches (query_filter req)) store)"
  from assms have "defineAction ''read'' (read_body (conceptDb nm)) opts r = Inr r1"
    by (simp add: defineReadAction_def)
  then have reg: "action ''read'' r1 = Inr (Handler (read_body (conceptDb nm)))"
    by (rule defineAction_own_action)
  have run: "read_body (conceptDb nm) req store = (Inr (Json_documents ?docs), store)"
    by (rule read_body_store)
  have all: "mset ?docs = filter_mset (matches (query_filter req)) (mset store)"
    by simp
  have ord: "sorted_wrt (\<lambda>x y. field_num ''dateUpdated'' y \<le> field_num ''dateUpdated'' x) ?docs"
    by (rule sorted_descending)
  have three: "?docs = [d3, d2, d1]"
    if "query_filter req = []" and "mset store = {#d1, d2, d3#}"
      and "field_num ''dateUpdated'' d1 < field_num ''dateUpdated'' d2"
      and "field_num ''dateUpdated'' d2 < field_num ''dateUpdated'' d3"
  proof -
    have eq: "filter (matches (query_filter req)) store = store"
      by (rule filter_True) (simp add: that(1) matches_empty)
    have "sort_key (\<lambda>d. - field_num ''dateUpdated'' d) store = [d3, d2, d1]"
      by (rule three_newest_first [of store d1 d2 d3 "field_num ''dateUpdated''",
            OF that(2) that(3) that(4)])
    then show ?thesis
      by (simp only: eq)
  qed
  show ?thesis
  proof (intro conjI exI [where x = ?docs] impI)
    assume "query_filter req = [] \<and> mset store = {#d1, d2, d3#}
      \<and> field_num ''dateUpdated'' d1 < field_num ''dateUpdated'' d2
      \<and> field_num ''dateUpdated'' d2 < field_num ''dateUpdated'' d3"
    then show "?docs = [d3, d2, d1]"
      using three by (elim conjE)
  qed (rule reg run all ord)+
qed

theorem read_action_newest_first_witness:
  "read_body (conceptDb ''posts'')
     \<lparr>body_partialDocument = Map.empty, query_filter = [], params_id = ''''\<rparr>
     [[''_id'' \<mapsto> Oid ''b'', ''dateUpdated'' \<mapsto> Num 20],
      [''_id'' \<mapsto> Oid ''a'', ''dateUpdated'' \<mapsto> Num 10],
      [''_id'' \<mapsto> Oid ''c'', ''dateUpdated'' \<mapsto> Num 30]]
   = (Inr (Json_documents
       [[''_id'' \<mapsto> Oid ''c'', ''dateUpdated'' \<mapsto> Num 30],
        [''_id'' \<mapsto> Oid ''b'', ''dateUpdated'' \<mapsto> Num 20],
        [''_id'' \<mapsto> Oid ''a'', ''dateUpdated'' \<mapsto> Num 10]]),
      [[''_id'' \<mapsto> Oid ''b'', ''dateUpdated'' \<mapsto> Num 20],
       [''_id'' \<mapsto> Oid ''a'', ''dateUpdated'' \<mapsto> Num 10],
       [''_id'' \<mapsto> Oid ''c'', ''dateUpdated'' \<mapsto> Num 30]])"
proof -
  let ?d1 = "[''_id'' \<mapsto> Oid ''a'', ''dateUpdated'' \<mapsto> Num 10]"
  let ?d2 = "[''_id'' \<mapsto> Oid ''b'', ''dateUpdated'' \<mapsto> Num 20]"
  let ?d3 = "[''_id'' \<mapsto> Oid ''c'', ''dateUpdated'' \<mapsto> Num 30]"
  let ?req = "\<lparr>body_partialDocument = Map.empty, query_filter = ([]::query), params_id = ''''\<rparr>"
  let ?r = "new_ConceptRouter ''posts'' (conceptDb ''posts'') :: (query, collection) Router"
  have h1: "defineReadAction None ?r = Inr (?r\<lparr>actions := [''read'' \<mapsto> read_body (conceptDb ''posts'')]\<rparr>)"
    by (simp add: defineReadAction_def defineAction_def new_ConceptRouter_def js_in_def
        Object_prototype_keys_def)
  have h2: "db ?r = conceptDb ''posts''"
    by (simp add: new_ConceptRouter_def)
  have h3: "query_filter ?req = [] \<and> mset [?d2, ?d1, ?d3] = {#?d1, ?d2, ?d3#}
      \<and> field_num ''dateUpdated'' ?d1 < field_num ''dateUpdated'' ?d2
      \<and> field_num ''dateUpdated'' ?d2 < field_num ''dateUpdated'' ?d3"
    by (simp add: field_num_def)
  show ?thesis
    using read_action_newest_first [OF h1 h2, of ?req "[?d2, ?d1, ?d3]" ?d1 ?d2 ?d3] h3
    by auto
qed

text \<open>
  Claim C7. The update generator registers \<open>update_body\<close> under the name
  \<^verbatim>\<open>update\<close>. When the path identifier is accepted by \<^verbatim>\<open>new ObjectId\<close>, the store
  holds a document \<open>d\<close> under it and the patch leaves \<^verbatim>\<open>_id\<close> alone, the body
  patches the store and answers with the document as \<^verbatim>\<open>readOneById\<close> returns it from
  the patched store: the fields of the patch at their new values and every other field
  of \<open>d\<close> as it was.
\<close>

theorem update_action_refetches:
  assumes "defineUpdateAction mk opts r = Inr r1" and "db r = conceptDb nm"
    and "mk (params_id req) = Inr i"
    and "find (has_id i) store = Some d"
    and "body_partialDocument req ''_id'' = None"
  shows "action ''update'' r1 = Inr (Handler (update_body mk (conceptDb nm)))
       \<and> update_body mk (conceptDb nm) req store =
           (Inr (Json_document (Some (d ++ body_partialDocument req))),
            update_first i (body_partialDocument req) store)
       \<and> readOneById (conceptDb nm) i (update_first i (body_partialDocument req) store) =
           (Inr (Some (d ++ body_partialDocument req)),
            update_first i (body_partialDocument req) store)
       \<and> (\<forall>k. (d ++ body_partialDocument req) k =
              (case body_partialDocument req k of Some v \<Rightarrow> Some v | None \<Rightarrow> d k))"
proof -
  let ?patch = "body_partialDocument req"
  from assms(1,2) have "defineAction ''update'' (update_body mk (conceptDb nm)) opts r = Inr r1"
    by (simp add: defineUpdateAction_def)
  then have reg: "action ''update'' r1 = Inr (Handler (update_body mk (conceptDb nm)))"
    by (rule defineAction_own_action)
  have fetched: "find (has_id i) (update_first i ?patch store) = Some (d ++ ?patch)"
    using assms(4,5) by (simp add: find_update_first)
  have run: "update_body mk (conceptDb nm) req store =
      (Inr (Json_document (Some (d ++ ?patch))), update_first i ?patch store)"
    using assms(3) by (simp add: update_body_store fetched)
  have again: "readOneById (conceptDb nm) i (update_first i ?patch store) =
      (Inr (Some (d ++ ?patch)), update_first i ?patch store)"
    by (simp add: conceptDb_def store_readOneById_def fetched)
  have fields: "\<forall>k. (d ++ ?patch) k = (case ?patch k of Some v \<Rightarrow> Some v | None \<Rightarrow> d k)"
    by (simp add: map_add_def split: option.splits)
  from reg run again fields show ?thesis
    by (intro conjI)
qed

theorem update_action_refetches_witness:
  "update_body (\<lambda>s. if length s = 24 then Inr s else Inl (Error ''BSONError''))
     (conceptDb ''posts'')
     \<lparr>body_partialDocument = [''title'' \<mapsto> Str ''y''], query_filter = [],
      params_id = ''0123456789abcdef01234567''\<rparr>
     [[''_id'' \<mapsto> Oid ''0123456789abcdef01234567'', ''title'' \<mapsto> Str ''x'',
       ''author'' \<mapsto> Str ''ann'']]
   = (Inr (Json_document (Some
        ([''_id'' \<mapsto> Oid ''0123456789abcdef01234567'', ''title'' \<mapsto> Str ''x'',
          ''author'' \<mapsto> Str ''ann''] ++ [''title'' \<mapsto> Str ''y'']))),
      [[''_id'' \<mapsto> Oid ''0123456789abcdef01234567'', ''title'' \<mapsto> Str ''x'',
        ''author'' \<mapsto> Str ''ann''] ++ [''title'' \<mapsto> Str ''y'']])
   \<and> ([''_id'' \<mapsto> Oid ''0123456789abcdef01234567'', ''title'' \<mapsto> Str ''x'',
        ''author'' \<mapsto> Str ''ann''] ++ [''title'' \<mapsto> Str ''y'']) ''title'' = Some (Str ''y'')
   \<and> ([''_id'' \<mapsto> Oid ''0123456789abcdef01234567'', ''title'' \<mapsto> Str ''x'',
        ''author'' \<mapsto> Str ''ann''] ++ [''title'' \<mapsto> Str ''y'']) ''author'' = Some (Str ''ann'')"
proof -
  let ?mk = "\<lambda>s. if length s = 24 then Inr s else Inl (Error ''BSONError'')"
  let ?id = "''0123456789abcdef01234567''"
  let ?d = "[''_id'' \<mapsto> Oid ?id, ''title'' \<mapsto> Str ''x'', ''author'' \<mapsto> Str ''ann'']"
  let ?req = "\<lparr>body_partialDocument = [''title'' \<mapsto> Str ''y''], query_filter = ([]::query),
      params_id = ?id\<rparr>"
  let ?r = "new_ConceptRouter ''posts'' (conceptDb ''posts'') :: (query, collection) Router"
  have h1: "defineUpdateAction ?mk None ?r =
      Inr (?r\<lparr>actions := [''update'' \<mapsto> update_body ?mk (conceptDb ''posts'')]\<rparr>)"
    by (simp add: defineUpdateAction_def defineAction_def new_ConceptRouter_def js_in_def
        Object_prototype_keys_def)
  have h2: "db ?r = conceptDb ''posts''"
    by (simp add: new_ConceptRouter_def)
  have h3: "?mk (params_id ?req) = Inr ?id"
    by simp
  have h4: "find (has_id ?id) [?d] = Some ?d"
    by (simp add: has_id_def)
  have h5: "body_partialDocument ?req ''_id'' = None"
    by simp
  have u: "update_first ?id (body_partialDocument ?req) [?d] = [?d ++ body_partialDocument ?req]"
    by (simp add: has_id_def)
  show ?thesis
    using update_action_refetches [of ?mk None ?r _ "''posts''" ?req ?id "[?d]" ?d, OF h1 h2 h3 h4 h5] u
    by simp
qed

text \<open>
  Claim C8. The delete generator registers \<open>delete_body\<close> under the name
  \<^verbatim>\<open>delete\<close>. For a path identifier accepted by \<^verbatim>\<open>new ObjectId\<close>: when no
  document of the store has it, the body answers with a null document, throws nothing
  and leaves the store as it was; when some document has it, the body answers with such
  a document and the store has lost it.
\<close>

theorem delete_action_miss_and_hit:
  assumes "defineDeleteAction mk opts r = Inr r1" and "db r = conceptDb nm"
    and "mk (params_id req) = Inr i"
  shows "action ''delete'' r1 = Inr (Handler (delete_body mk (conceptDb nm)))
       \<and> ((\<forall>d \<in> set store. \<not> has_id i d) \<longrightarrow>
            delete_body mk (conceptDb nm) req store = (Inr (Json_document None), store))
       \<and> ((\<exists>d \<in> set store. has_id i d) \<longrightarrow>
            (\<exists>d. d \<in> set store \<and> has_id i d
               \<and> delete_body mk (conceptDb nm) req store =
                   (Inr (Json_document (Some d)), remove1 d store)))"
proof -
  from assms(1,2) have "defineAction ''delete'' (delete_body mk (conceptDb nm)) opts r = Inr r1"
    by (simp add: defineDeleteAction_def)
  then have reg: "action ''delete'' r1 = Inr (Handler (delete_body mk (conceptDb nm)))"
    by (rule defineAction_own_action)
  have run: "delete_body mk (conceptDb nm) req store =
      (Inr (Json_document (find (has_id i) store)), remove_first i store)"
    using assms(3) by (rule delete_body_store)
  have miss: "delete_body mk (conceptDb nm) req store = (Inr (Json_document None), store)"
    if "\<forall>d \<in> set store. \<not> has_id i d"
  proof -
    from that have none: "find (has_id i) store = None"
      by (simp add: find_None_iff)
    show ?thesis
      by (simp add: run none remove_first_miss [OF none])
  qed
  have hit: "\<exists>d. d \<in> set store \<and> has_id i d
       \<and> delete_body mk (conceptDb nm) req store = (Inr (Json_document (Some d)), remove1 d store)"
    if "\<exists>d \<in> set store. has_id i d"
  proof -
    from that obtain d where some: "find (has_id i) store = Some d"
      by (cases "find (has_id i) store") (auto simp: find_None_iff)
    from remove_first_hit [OF some] run some show ?thesis
      by auto
  qed
  from reg miss hit show ?thesis
    by (intro conjI impI)
qed

theorem delete_action_miss_and_hit_witness:
  "delete_body (\<lambda>s. if length s = 24 then Inr s else Inl (Error ''BSONError''))
     (conceptDb ''posts'')
     \<lparr>body_partialDocument = Map.empty, query_filter = [],
      params_id = ''ffffffffffffffffffffffff''\<rparr>
     [[''_id'' \<mapsto> Oid ''0123456789abcdef01234567'', ''title'' \<mapsto> Str ''x'']]
   = (Inr (Json_document None),
      [[''_id'' \<mapsto> Oid ''0123456789abcdef01234567'', ''title'' \<mapsto> Str ''x'']])
   \<and> delete_body (\<lambda>s. if length s = 24 then Inr s else Inl (Error ''BSONError''))
     (conceptDb ''posts'')
     \<lparr>body_partialDocument = Map.empty, query_filter = [],
      params_id = ''0123456789abcdef01234567''\<rparr>
     [[''_id'' \<mapsto> Oid ''0123456789abcdef01234567'', ''title'' \<mapsto> Str ''x'']]
   = (Inr (Json_document (Some [''_id'' \<mapsto> Oid ''0123456789abcdef01234567'', ''title'' \<mapsto> Str ''x''])),
      [])"
proof -
  let ?mk = "\<lambda>s. if length s = 24 then Inr s else Inl (Error ''BSONError'')"
  let ?id = "''0123456789abcdef01234567''"
  let ?other = "''ffffffffffffffffffffffff''"
  let ?d = "[''_id'' \<mapsto> Oid ?id, ''title'' \<mapsto> Str ''x'']"
  let ?miss = "\<lparr>body_partialDocument = Map.empty, query_filter = ([]::query), params_id = ?other\<rparr>"
  let ?hit = "\<lparr>body_partialDocument = Map.empty, query_filter = ([]::query), params_id = ?id\<rparr>"
  let ?r = "new_ConceptRouter ''posts'' (conceptDb ''posts'') :: (query, collection) Router"
  have h1: "defineDeleteAction ?mk None ?r =
      Inr (?r\<lparr>actions := [''delete'' \<mapsto> delete_body ?mk (conceptDb ''posts'')]\<rparr>)"
    by (simp add: defineDeleteAction_def defineAction_def new_ConceptRouter_def js_in_def
        Object_prototype_keys_def)
  have h2: "db ?r = conceptDb ''posts''"
    by (simp add: new_ConceptRouter_def)
  have m3: "?mk (params_id ?miss) = Inr ?other"
    by simp
  have m4: "\<forall>d \<in> set [?d]. \<not> has_id ?other d"
    by (simp add: has_id_def)
  have k3: "?mk (params_id ?hit) = Inr ?id"
    by simp
  have k4: "\<exists>d \<in> set [?d]. has_id ?id d"
    by (simp add: has_id_def)
  have miss: "delete_body ?mk (conceptDb ''posts'') ?miss [?d] = (Inr (Json_document None), [?d])"
    using delete_action_miss_and_hit [of ?mk None ?r _ "''posts''" ?miss ?other "[?d]", OF h1 h2 m3] m4
    by blast
  have hit: "delete_body ?mk (conceptDb ''posts'') ?hit [?d] = (Inr (Json_document (Some ?d)), [])"
    using delete_action_miss_and_hit [of ?mk None ?r _ "''posts''" ?hit ?id "[?d]", OF h1 h2 k3] k4
    by auto
  from miss hit show ?thesis
    by (rule conjI)
qed

end
